theory Spec2Isabelle
  imports
    Main
    "HOL-Library.Sublist"
    "HOL-Library.Char_ord"
    "HOL-Library.List_Lexorder"
    "HOL-Library.Product_Lexorder"
    "HOL-Library.AList"
begin

section \<open>Exceptions\<close>

text \<open>
  Every exception the program raises or lets through is a value. The first field of an
  operating-system error is the path the failing call was given, which Python prints in
  the error's text.
\<close>

datatype exn =
    HTTPException nat string "(string \<times> string) list"
  | JWTError string
  | ExpiredSignatureError string
  | JWTClaimsError string
  | FileExistsError string
  | FileNotFoundError string
  | NotADirectoryError string
  | IsADirectoryError string
  | ValueError string
  | TypeError string
  | KeyError string

fun status_code :: "exn \<Rightarrow> nat option" where
  "status_code (HTTPException c d h) = Some c"
| "status_code _ = None"

fun detail :: "exn \<Rightarrow> string" where
  "detail (HTTPException c d h) = d"
| "detail _ = []"

text \<open>
  \<open>except JWTError\<close> catches the class and its subclasses: in python-jose
  \<open>ExpiredSignatureError\<close> and \<open>JWTClaimsError\<close> both derive from \<open>JWTError\<close>.
\<close>

fun is_JWTError :: "exn \<Rightarrow> bool" where
  "is_JWTError (JWTError m) = True"
| "is_JWTError (ExpiredSignatureError m) = True"
| "is_JWTError (JWTClaimsError m) = True"
| "is_JWTError _ = False"

fun is_HTTPException :: "exn \<Rightarrow> bool" where
  "is_HTTPException (HTTPException c d h) = True"
| "is_HTTPException _ = False"

section \<open>Session tokens (app/middleware/auth.py)\<close>

text \<open>
  A claims dictionary maps names to JSON values. Times are whole seconds since the epoch
  (the token library truncates a \<open>datetime\<close> to seconds when it encodes it), and a
  \<open>timedelta\<close> is a number of seconds.
\<close>

datatype jval = JStr string | JInt int | JNull

type_synonym claims = "string \<rightharpoonup> jval"

text \<open>
  The compact serialisation of a signed token, seen after base64 and JSON decoding:
  the algorithm named in the header, the payload and the signature. \<open>Malformed\<close> stands
  for every string that does not decode to that shape. The keyed hash of the signing
  scheme is a parameter \<open>hmac\<close> of the library functions below: it takes the key and the
  signed part (header algorithm and payload).
\<close>

datatype token = Malformed | Jws string claims string

type_synonym mac = "string \<Rightarrow> string \<times> claims \<Rightarrow> string"

definition ALGORITHM :: string where
  "ALGORITHM = ''HS256''"

definition ACCESS_TOKEN_EXPIRE_HOURS :: int where
  "ACCESS_TOKEN_EXPIRE_HOURS = 24"

definition timedelta_hours :: "int \<Rightarrow> int" where
  "timedelta_hours h = h * 3600"

text \<open>\<open>SECRET_KEY = os.getenv("JWT_SECRET", "your-secret-key")\<close>\<close>

definition SECRET_KEY :: "string option \<Rightarrow> string" where
  "SECRET_KEY env = (case env of None \<Rightarrow> ''your-secret-key'' | Some s \<Rightarrow> s)"

record AuthMiddleware =
  secret_key :: string
  algorithm :: string

definition auth_middleware :: "string option \<Rightarrow> AuthMiddleware" where
  "auth_middleware env = \<lparr>secret_key = SECRET_KEY env, algorithm = ALGORITHM\<rparr>"

text \<open>
  \<open>jwt.encode\<close> and \<open>jwt.decode\<close> of python-jose, as far as this program uses them.
  \<open>jwt_decode\<close> checks the structure, then that the header's algorithm is one of the
  allowed ones and that the signature matches, then the expiry: a token whose \<open>exp\<close> is
  before the current time is expired; a token without \<open>exp\<close> is not. The library also
  validates the registered claims \<open>nbf\<close>, \<open>iat\<close>, \<open>aud\<close>, \<open>iss\<close>, \<open>sub\<close>, \<open>jti\<close> and
  \<open>at_hash\<close> when a payload has them; that part is not modelled, and no claim set
  this program issues has them.
\<close>

definition jwt_encode :: "mac \<Rightarrow> claims \<Rightarrow> string \<Rightarrow> string \<Rightarrow> token" where
  "jwt_encode hmac payload key alg = Jws alg payload (hmac key (alg, payload))"

fun validate_exp :: "int \<Rightarrow> claims \<Rightarrow> exn + unit" where
  "validate_exp now payload =
     (case payload ''exp'' of
        None \<Rightarrow> Inr ()
      | Some (JInt e) \<Rightarrow>
          if e < now then Inl (ExpiredSignatureError ''Signature has expired.'') else Inr ()
      | Some (JStr s) \<Rightarrow> Inl (JWTClaimsError ''Expiration Time claim (exp) must be an integer.'')
      | Some JNull \<Rightarrow> Inl (TypeError ''int() argument must be a string or a real number''))"

fun jwt_decode :: "mac \<Rightarrow> int \<Rightarrow> token \<Rightarrow> string \<Rightarrow> string list \<Rightarrow> exn + claims" where
  "jwt_decode hmac now Malformed key algorithms = Inl (JWTError ''Not enough segments'')"
| "jwt_decode hmac now (Jws alg payload sig) key algorithms =
     (if alg \<notin> set algorithms then Inl (JWTError ''The specified alg value is not allowed'')
      else if sig \<noteq> hmac key (alg, payload) then Inl (JWTError ''Signature verification failed.'')
      else case validate_exp now payload of
             Inl e \<Rightarrow> Inl e
           | Inr u \<Rightarrow> Inr payload)"

text \<open>
  \<open>create_access_token\<close>: \<open>now\<close> is the value of \<open>datetime.utcnow()\<close> at the call.
  \<open>if expires_delta:\<close> is false for \<open>None\<close> and for a zero \<open>timedelta\<close>.
\<close>

definition create_access_token ::
  "mac \<Rightarrow> AuthMiddleware \<Rightarrow> int \<Rightarrow> claims \<Rightarrow> int option \<Rightarrow> token" where
  "create_access_token hmac self now data expires_delta =
     (let to_encode = data;
          expire = (case expires_delta of
                      Some d \<Rightarrow> if d \<noteq> 0 then now + d
                                else now + timedelta_hours ACCESS_TOKEN_EXPIRE_HOURS
                    | None \<Rightarrow> now + timedelta_hours ACCESS_TOKEN_EXPIRE_HOURS);
          to_encode = to_encode(''exp'' \<mapsto> JInt expire)
      in jwt_encode hmac to_encode (secret_key self) (algorithm self))"

text \<open>
  \<open>verify_token\<close> returns \<open>None\<close> where the library raises a \<open>JWTError\<close>; any other
  exception passes through.
\<close>

definition verify_token :: "mac \<Rightarrow> AuthMiddleware \<Rightarrow> int \<Rightarrow> token \<Rightarrow> exn + claims option" where
  "verify_token hmac self now tok =
     (case jwt_decode hmac now tok (secret_key self) [algorithm self] of
        Inr payload \<Rightarrow> Inr (Some payload)
      | Inl e \<Rightarrow> if is_JWTError e then Inr None else Inl e)"




section \<open>Strings and paths (Python's \<open>str\<close> and \<open>posixpath\<close>)\<close>

text \<open>
  \<open>s.split(sep)\<close> for a one-character separator: the pieces between the separators,
  empty pieces included; the empty string gives one empty piece.
\<close>

fun str_split :: "char \<Rightarrow> string \<Rightarrow> string list" where
  "str_split sep [] = [[]]"
| "str_split sep (c # cs) =
     (if c = sep then [] # str_split sep cs
      else (case str_split sep cs of
              [] \<Rightarrow> [[c]]
            | w # ws \<Rightarrow> (c # w) # ws))"

text \<open>\<open>sep.join(xs)\<close>\<close>

fun str_join :: "string \<Rightarrow> string list \<Rightarrow> string" where
  "str_join sep [] = []"
| "str_join sep [x] = x"
| "str_join sep (x # y # ys) = x @ sep @ str_join sep (y # ys)"

text \<open>
  \<open>s.replace(old, new)\<close>: the occurrences of \<open>old\<close> are found from the left and do
  not overlap; the text after an occurrence is searched on, the replacement is not.
\<close>

function str_replace :: "string \<Rightarrow> string \<Rightarrow> string \<Rightarrow> string" where
  "str_replace old new s =
     (if old = [] then new @ concat (map (\<lambda>c. c # new) s)
      else if s = [] then []
      else if prefix old s then new @ str_replace old new (drop (length old) s)
      else hd s # str_replace old new (tl s))"
  by pat_completeness auto
termination
  by (relation "measure (\<lambda>(old, new, s). length s)") (auto simp: neq_Nil_conv)

declare str_replace.simps [simp del]

text \<open>\<open>s.strip(chars)\<close>: the characters of \<open>chars\<close> are removed from both ends.\<close>

definition str_strip :: "string \<Rightarrow> string \<Rightarrow> string" where
  "str_strip chars s =
     rev (dropWhile (\<lambda>c. c \<in> set chars) (rev (dropWhile (\<lambda>c. c \<in> set chars) s)))"

definition startswith :: "string \<Rightarrow> string \<Rightarrow> bool" where
  "startswith s p = prefix p s"

definition endswith :: "string \<Rightarrow> string \<Rightarrow> bool" where
  "endswith s p = suffix p s"

text \<open>\<open>posixpath.isabs\<close>, and \<open>posixpath.join\<close> of two paths.\<close>

definition isabs :: "string \<Rightarrow> bool" where
  "isabs s = startswith s ''/''"

definition os_path_join :: "string \<Rightarrow> string \<Rightarrow> string" where
  "os_path_join a b =
     (if startswith b ''/'' then b
      else if a = [] \<or> endswith a ''/'' then a @ b
      else a @ ''/'' @ b)"

text \<open>
  \<open>posixpath.normpath\<close>. The loop over the components keeps the list \<open>new_comps\<close>;
  \<open>initial_slashes\<close> is 0, 1 or 2 (exactly two leading slashes are kept).
\<close>

definition initial_slashes :: "string \<Rightarrow> nat" where
  "initial_slashes path =
     (if startswith path ''/'' then
        (if startswith path ''//'' \<and> \<not> startswith path ''///'' then 2 else 1)
      else 0)"

fun normpath_loop :: "nat \<Rightarrow> string list \<Rightarrow> string list \<Rightarrow> string list" where
  "normpath_loop i [] new_comps = new_comps"
| "normpath_loop i (c # comps) new_comps =
     (if c = [] \<or> c = ''.'' then normpath_loop i comps new_comps
      else if c \<noteq> ''..'' \<or> (i = 0 \<and> new_comps = [])
              \<or> (new_comps \<noteq> [] \<and> last new_comps = ''..'')
        then normpath_loop i comps (new_comps @ [c])
      else if new_comps \<noteq> [] then normpath_loop i comps (butlast new_comps)
      else normpath_loop i comps new_comps)"

definition normpath :: "string \<Rightarrow> string" where
  "normpath path =
     (if path = [] then ''.''
      else let i = initial_slashes path;
               comps = normpath_loop i (str_split CHR ''/'' path) [];
               path' = str_join ''/'' comps;
               path' = (if i \<noteq> 0 then replicate i CHR ''/'' @ path' else path')
           in if path' = [] then ''.'' else path')"

text \<open>\<open>posixpath.abspath\<close>; \<open>cwd\<close> is the value of \<open>os.getcwd()\<close>.\<close>

definition abspath :: "string \<Rightarrow> string \<Rightarrow> string" where
  "abspath cwd path = normpath (if isabs path then path else os_path_join cwd path)"

section \<open>Path validation (app/utils/security.py)\<close>

definition access_denied :: exn where
  "access_denied = HTTPException 403 ''Access denied: Invalid path'' []"

definition validate_path :: "string \<Rightarrow> string \<Rightarrow> string \<Rightarrow> exn + string" where
  "validate_path cwd base_path user_path =
     (if user_path = [] then Inr base_path
      else let user_path = str_strip ''/'' (str_replace ''//'' ''/'' (str_replace ''..'' [] user_path));
               full_path = os_path_join base_path user_path;
               resolved_path = abspath cwd full_path;
               base_abs_path = abspath cwd base_path
           in if \<not> startswith resolved_path base_abs_path then Inl access_denied
              else Inr resolved_path)"

text \<open>
  The comparison the specification asks for: \<open>p\<close> lies strictly below \<open>root\<close> when it
  continues \<open>root\<close> after a separator (the one \<open>root\<close> ends with, or one that follows
  it).
\<close>

definition proper_descendant :: "string \<Rightarrow> string \<Rightarrow> bool" where
  "proper_descendant root p =
     (strict_prefix (root @ ''/'') p
      \<or> (root \<noteq> [] \<and> last root = CHR ''/'' \<and> strict_prefix root p))"

definition path_within :: "string \<Rightarrow> string \<Rightarrow> bool" where
  "path_within root p = (p = root \<or> proper_descendant root p)"


section \<open>Text of numbers, strings and exceptions\<close>

text \<open>\<open>str(n)\<close> for an integer: decimal digits, with a minus sign when negative.\<close>

definition digit_char :: "nat \<Rightarrow> char" where
  "digit_char d = ''0123456789'' ! d"

function str_nat :: "nat \<Rightarrow> string" where
  "str_nat n = (if n < 10 then [digit_char n] else str_nat (n div 10) @ [digit_char (n mod 10)])"
  by pat_completeness auto
termination
  by (relation "measure id") auto

declare str_nat.simps [simp del]

definition str_int :: "int \<Rightarrow> string" where
  "str_int i = (if i < 0 then CHR ''-'' # str_nat (nat (- i)) else str_nat (nat i))"

definition hex_char :: "nat \<Rightarrow> char" where
  "hex_char d = ''0123456789abcdef'' ! d"

text \<open>
  \<open>repr(s)\<close> of a string: double quotes when the string has a single quote and no double
  quote, single quotes otherwise; the quote in use, the backslash and the control
  characters are escaped. Characters are taken to be ASCII.
\<close>

definition repr_char :: "char \<Rightarrow> char \<Rightarrow> string" where
  "repr_char q c =
     (if c = q \<or> c = CHR 0x5C then [CHR 0x5C, c]
      else if c = CHR 0x09 then [CHR 0x5C, CHR ''t'']
      else if c = CHR 0x0A then [CHR 0x5C, CHR ''n'']
      else if c = CHR 0x0D then [CHR 0x5C, CHR ''r'']
      else if of_char c < (32::nat) \<or> c = CHR 0x7F
        then [CHR 0x5C, CHR ''x'', hex_char (of_char c div 16), hex_char (of_char c mod 16)]
      else [c])"

definition py_repr :: "string \<Rightarrow> string" where
  "py_repr s =
     (let q = (if CHR 0x27 \<in> set s \<and> CHR 0x22 \<notin> set s then CHR 0x22 else CHR 0x27)
      in q # concat (map (repr_char q) s) @ [q])"

text \<open>
  \<open>str(e)\<close> of an exception, as the handlers put it into their messages: the message
  for most, the error number, its text and the quoted path for an operating-system
  error, status and detail for an \<open>HTTPException\<close>.
\<close>

fun str_exn :: "exn \<Rightarrow> string" where
  "str_exn (HTTPException c d h) = str_nat c @ '': '' @ d"
| "str_exn (JWTError m) = m"
| "str_exn (ExpiredSignatureError m) = m"
| "str_exn (JWTClaimsError m) = m"
| "str_exn (FileExistsError p) = ''[Errno 17] File exists: '' @ py_repr p"
| "str_exn (FileNotFoundError p) = ''[Errno 2] No such file or directory: '' @ py_repr p"
| "str_exn (NotADirectoryError p) = ''[Errno 20] Not a directory: '' @ py_repr p"
| "str_exn (IsADirectoryError p) = ''[Errno 21] Is a directory: '' @ py_repr p"
| "str_exn (ValueError m) = m"
| "str_exn (TypeError m) = m"
| "str_exn (KeyError k) = py_repr k"

fun is_OSError :: "exn \<Rightarrow> bool" where
  "is_OSError (FileExistsError p) = True"
| "is_OSError (FileNotFoundError p) = True"
| "is_OSError (NotADirectoryError p) = True"
| "is_OSError (IsADirectoryError p) = True"
| "is_OSError _ = False"

fun is_FileExistsError :: "exn \<Rightarrow> bool" where
  "is_FileExistsError (FileExistsError p) = True"
| "is_FileExistsError _ = False"

section \<open>The file system\<close>

text \<open>
  The file system is a tree: a regular file has a size and a modification time, a
  directory a modification time and its entries by name. There are no symbolic links
  (no operation of the program creates one) and no permissions. A location is the list
  of names from the root.
\<close>

datatype node = File nat int | Dir int "(string \<times> node) list"

fun lookup :: "node \<Rightarrow> string list \<Rightarrow> node option" where
  "lookup n [] = Some n"
| "lookup (File s m) (c # cs) = None"
| "lookup (Dir m kids) (c # cs) =
     (case map_of kids c of None \<Rightarrow> None | Some k \<Rightarrow> lookup k cs)"

text \<open>
  \<open>put\<close> stores a node at a location whose parent is a directory: a new entry is
  appended and the directory's modification time set; an entry that exists is replaced.
\<close>

fun put :: "node \<Rightarrow> string list \<Rightarrow> node \<Rightarrow> int \<Rightarrow> node" where
  "put n [] new now = new"
| "put (File s m) (c # cs) new now = File s m"
| "put (Dir m kids) (c # cs) new now =
     (case map_of kids c of
        None \<Rightarrow> if cs = [] then Dir now (kids @ [(c, new)]) else Dir m kids
      | Some k \<Rightarrow> Dir m (AList.update c (put k cs new now) kids))"

text \<open>
  How the kernel follows the components of a path from a location: the place a component
  is looked up in must be a directory; an empty component and \<open>.\<close> stay, \<open>..\<close> goes
  to the parent (the root is its own parent), a name goes to the entry of that name,
  whether it exists is checked when the next component, or the caller, looks at it.
\<close>

datatype errno = ENOENT | ENOTDIR

fun walk :: "node \<Rightarrow> string list \<Rightarrow> string list \<Rightarrow> errno + string list" where
  "walk root loc [] = Inr loc"
| "walk root loc (c # cs) =
     (case lookup root loc of
        None \<Rightarrow> Inl ENOENT
      | Some (File s m) \<Rightarrow> Inl ENOTDIR
      | Some (Dir m kids) \<Rightarrow>
          if c = [] \<or> c = ''.'' then walk root loc cs
          else if c = ''..'' then walk root (butlast loc) cs
          else walk root (loc @ [c]) cs)"

text \<open>The components of a path, those of the working directory first when it is relative.\<close>

definition path_comps :: "string \<Rightarrow> string \<Rightarrow> string list" where
  "path_comps cwd path =
     str_split CHR ''/'' (if isabs path then path else cwd @ ''/'' @ path)"

fun oserror :: "errno \<Rightarrow> string \<Rightarrow> exn" where
  "oserror ENOENT path = FileNotFoundError path"
| "oserror ENOTDIR path = NotADirectoryError path"

definition embedded_null :: "string \<Rightarrow> bool" where
  "embedded_null path = (CHR 0x00 \<in> set path)"

text \<open>\<open>os.stat\<close>: the node a path leads to.\<close>

definition os_stat :: "node \<Rightarrow> string \<Rightarrow> string \<Rightarrow> exn + node" where
  "os_stat root cwd path =
     (if embedded_null path then Inl (ValueError ''embedded null byte'')
      else if path = [] then Inl (FileNotFoundError path)
      else case walk root [] (path_comps cwd path) of
             Inl e \<Rightarrow> Inl (oserror e path)
           | Inr loc \<Rightarrow>
               (case lookup root loc of
                  None \<Rightarrow> Inl (FileNotFoundError path)
                | Some n \<Rightarrow> Inr n))"

text \<open>\<open>os.path.exists\<close> and \<open>isdir\<close> answer \<open>False\<close> where \<open>os.stat\<close> raises.\<close>

definition os_path_exists :: "node \<Rightarrow> string \<Rightarrow> string \<Rightarrow> bool" where
  "os_path_exists root cwd path =
     (case os_stat root cwd path of Inl e \<Rightarrow> False | Inr n \<Rightarrow> True)"

definition os_path_isdir :: "node \<Rightarrow> string \<Rightarrow> string \<Rightarrow> bool" where
  "os_path_isdir root cwd path =
     (case os_stat root cwd path of Inr (Dir m kids) \<Rightarrow> True | _ \<Rightarrow> False)"

text \<open>Trailing slashes leave empty components at the end; \<open>os.mkdir\<close> ignores them.\<close>

definition strip_trailing_empty :: "string list \<Rightarrow> string list" where
  "strip_trailing_empty comps = rev (dropWhile (\<lambda>c. c = []) (rev comps))"

text \<open>
  \<open>os.mkdir\<close>: the parent must be a directory and the name new; the names \<open>.\<close> and
  \<open>..\<close> and the root exist already.
\<close>

definition os_mkdir :: "node \<Rightarrow> string \<Rightarrow> int \<Rightarrow> string \<Rightarrow> exn + node" where
  "os_mkdir root cwd now path =
     (if embedded_null path then Inl (ValueError ''embedded null byte'')
      else if path = [] then Inl (FileNotFoundError path)
      else let comps = strip_trailing_empty (path_comps cwd path)
           in if comps = [] then Inl (FileExistsError path)
              else case walk root [] (butlast comps) of
                     Inl e \<Rightarrow> Inl (oserror e path)
                   | Inr loc \<Rightarrow>
                       (case lookup root loc of
                          None \<Rightarrow> Inl (FileNotFoundError path)
                        | Some (File s m) \<Rightarrow> Inl (NotADirectoryError path)
                        | Some (Dir m kids) \<Rightarrow>
                            if last comps = ''.'' \<or> last comps = ''..'' then Inl (FileExistsError path)
                            else if map_of kids (last comps) \<noteq> None then Inl (FileExistsError path)
                            else Inr (put root (loc @ [last comps]) (Dir now []) now)))"

text \<open>\<open>os.listdir\<close>: the names in a directory.\<close>

definition os_listdir :: "node \<Rightarrow> string \<Rightarrow> string \<Rightarrow> exn + string list" where
  "os_listdir root cwd path =
     (case os_stat root cwd path of
        Inl e \<Rightarrow> Inl e
      | Inr (File s m) \<Rightarrow> Inl (NotADirectoryError path)
      | Inr (Dir m kids) \<Rightarrow> Inr (remdups (map fst kids)))"

text \<open>
  Opening a file for writing and writing \<open>sz\<close> bytes: the file is created, or an
  existing regular file replaced; a directory cannot be opened for writing.
\<close>

definition write_file :: "node \<Rightarrow> string \<Rightarrow> int \<Rightarrow> string \<Rightarrow> nat \<Rightarrow> exn + node" where
  "write_file root cwd now path sz =
     (if embedded_null path then Inl (ValueError ''embedded null byte'')
      else if path = [] then Inl (FileNotFoundError path)
      else let comps = path_comps cwd path
           in case walk root [] (butlast comps) of
                Inl e \<Rightarrow> Inl (oserror e path)
              | Inr loc \<Rightarrow>
                  (case lookup root loc of
                     None \<Rightarrow> Inl (FileNotFoundError path)
                   | Some (File s m) \<Rightarrow> Inl (NotADirectoryError path)
                   | Some (Dir m kids) \<Rightarrow>
                       if last comps = [] \<or> last comps = ''.'' \<or> last comps = ''..''
                         then Inl (IsADirectoryError path)
                       else (case map_of kids (last comps) of
                               Some (Dir m' kids') \<Rightarrow> Inl (IsADirectoryError path)
                             | _ \<Rightarrow> Inr (put root (loc @ [last comps]) (File sz now) now))))"

text \<open>\<open>posixpath.split\<close>: the part up to the last slash and the part after it.\<close>

definition os_path_split :: "string \<Rightarrow> string \<times> string" where
  "os_path_split p =
     (let tail = rev (takeWhile (\<lambda>c. c \<noteq> CHR ''/'') (rev p));
          head = rev (dropWhile (\<lambda>c. c \<noteq> CHR ''/'') (rev p));
          head = (if head \<noteq> [] \<and> head \<noteq> replicate (length head) CHR ''/''
                  then rev (dropWhile (\<lambda>c. c = CHR ''/'') (rev head)) else head)
      in (head, tail))"

text \<open>
  \<open>os.makedirs\<close>. Every call returns the file system it leaves, with the exception it
  raised if it raised one. \<open>makedirs_parts\<close> is the head and tail \<open>makedirs\<close> works with.
\<close>

definition makedirs_parts :: "string \<Rightarrow> string \<times> string" where
  "makedirs_parts name =
     (let (head, tail) = os_path_split name
      in if tail = [] then os_path_split head else (head, tail))"

definition makedirs_mkdir :: "node \<Rightarrow> string \<Rightarrow> int \<Rightarrow> bool \<Rightarrow> string \<Rightarrow> (exn + unit) \<times> node" where
  "makedirs_mkdir root cwd now exist_ok name =
     (case os_mkdir root cwd now name of
        Inr root' \<Rightarrow> (Inr (), root')
      | Inl e \<Rightarrow>
          if is_OSError e \<and> \<not> (\<not> exist_ok \<or> \<not> os_path_isdir root cwd name) then (Inr (), root)
          else (Inl e, root))"

lemma os_path_split_length: "length (fst (os_path_split p)) + length (snd (os_path_split p)) \<le> length p"
proof -
  let ?P = "\<lambda>c. c \<noteq> CHR ''/''"
  have "length (takeWhile ?P (rev p)) + length (dropWhile ?P (rev p)) = length p"
    by (metis length_append length_rev takeWhile_dropWhile_id)
  moreover have "length (dropWhile (\<lambda>c. c = CHR ''/'') (rev (rev (dropWhile ?P (rev p)))))
                  \<le> length (dropWhile ?P (rev p))"
    by (simp add: length_dropWhile_le)
  ultimately show ?thesis
    by (auto simp: os_path_split_def Let_def)
qed

lemma makedirs_parts_length:
  "snd (makedirs_parts name) \<noteq> [] \<Longrightarrow> length (fst (makedirs_parts name)) < length name"
proof -
  assume a: "snd (makedirs_parts name) \<noteq> []"
  obtain h t where ht: "os_path_split name = (h, t)" by (cases "os_path_split name")
  have l1: "length h + length t \<le> length name" using os_path_split_length [of name] ht by simp
  show ?thesis
  proof (cases "t = []")
    case True
    then have mp: "makedirs_parts name = os_path_split h" using ht by (simp add: makedirs_parts_def)
    have "length (fst (os_path_split h)) + length (snd (os_path_split h)) \<le> length h"
      by (rule os_path_split_length)
    moreover have "0 < length (snd (os_path_split h))" using a mp by simp
    ultimately have "length (fst (os_path_split h)) < length name" using l1 by linarith
    then show ?thesis using mp by simp
  next
    case False
    have mp: "makedirs_parts name = (h, t)" using False ht by (simp add: makedirs_parts_def)
    have "0 < length t" using False by simp
    then have "length h < length name" using l1 by linarith
    then show ?thesis using mp by simp
  qed
qed

function makedirs :: "node \<Rightarrow> string \<Rightarrow> int \<Rightarrow> bool \<Rightarrow> string \<Rightarrow> (exn + unit) \<times> node" where
  "makedirs root cwd now exist_ok name =
     (if fst (makedirs_parts name) \<noteq> [] \<and> snd (makedirs_parts name) \<noteq> []
         \<and> \<not> os_path_exists root cwd (fst (makedirs_parts name))
      then (case makedirs root cwd now exist_ok (fst (makedirs_parts name)) of
              (Inl e, root') \<Rightarrow>
                if is_FileExistsError e
                then (if snd (makedirs_parts name) = ''.'' then (Inr (), root')
                      else makedirs_mkdir root' cwd now exist_ok name)
                else (Inl e, root')
            | (Inr u, root') \<Rightarrow>
                if snd (makedirs_parts name) = ''.'' then (Inr (), root')
                else makedirs_mkdir root' cwd now exist_ok name)
      else makedirs_mkdir root cwd now exist_ok name)"
  by pat_completeness auto
termination
  by (relation "measure (\<lambda>(root, cwd, now, exist_ok, name). length name)")
     (auto simp: makedirs_parts_length)

declare makedirs.simps [simp del]

section \<open>Per-user directories (app/utils/security.py)\<close>

text \<open>
  \<open>get_user_directory\<close>. The identifier is the value of \<open>current_user["id"]\<close>; when it
  is not a string, \<open>os.path.join\<close> raises a \<open>TypeError\<close>.
\<close>

definition join_type_error :: "string \<Rightarrow> exn" where
  "join_type_error ty =
     TypeError (''join() argument must be str, bytes, or os.PathLike object, not '' @ py_repr ty)"

definition get_user_directory :: "node \<Rightarrow> string \<Rightarrow> int \<Rightarrow> jval \<Rightarrow> (exn + string) \<times> node" where
  "get_user_directory root cwd now user_id =
     (let base_dir = os_path_join cwd ''uploads''
      in case user_id of
           JInt n \<Rightarrow> (Inl (join_type_error ''int''), root)
         | JNull \<Rightarrow> (Inl (join_type_error ''NoneType''), root)
         | JStr s \<Rightarrow>
             (let user_dir = os_path_join base_dir s
              in case makedirs root cwd now True user_dir of
                   (Inl e, root') \<Rightarrow> (Inl e, root')
                 | (Inr u, root') \<Rightarrow> (Inr user_dir, root')))"

text \<open>\<open>current_user["id"]\<close>: a missing key raises \<open>KeyError\<close>.\<close>

definition subscript :: "claims \<Rightarrow> string \<Rightarrow> exn + jval" where
  "subscript d k = (case d k of None \<Rightarrow> Inl (KeyError k) | Some v \<Rightarrow> Inr v)"

section \<open>File operations (app/files/routes.py)\<close>

text \<open>
  The list, upload and create-folder operations. Each returns its response or the
  exception it raises, and the file system it leaves. The clock \<open>now\<close> gives the
  modification times and the timestamp of an upload.
\<close>

record FileItem =
  item_name :: string
  item_path :: string
  item_type :: string
  item_size :: "nat option"
  item_modified :: "int option"

record FileTreeResponse =
  tree :: "FileItem list"
  current_path :: string

record UploadedFile =
  up_name :: string
  up_stored_name :: string
  up_size :: nat
  up_path :: string

record UploadResponse =
  message :: string
  file_info :: UploadedFile

record FolderResponse =
  folder_message :: string
  folder_name :: string

definition ALLOWED_EXTENSIONS :: "string list" where
  "ALLOWED_EXTENSIONS =
     [''txt'', ''pdf'', ''png'', ''jpg'', ''jpeg'', ''gif'', ''doc'', ''docx'', ''ppt'', ''pptx'']"

definition MAX_FILE_SIZE :: nat where
  "MAX_FILE_SIZE = 10 * 1024 * 1024"

text \<open>
  \<open>s.lower()\<close> on ASCII letters; other characters are left as they are.
\<close>

definition lower_char :: "char \<Rightarrow> char" where
  "lower_char c =
     (case List.find (\<lambda>p. fst p = c) (zip ''ABCDEFGHIJKLMNOPQRSTUVWXYZ'' ''abcdefghijklmnopqrstuvwxyz'') of
        None \<Rightarrow> c
      | Some p \<Rightarrow> snd p)"

definition str_lower :: "string \<Rightarrow> string" where
  "str_lower s = map lower_char s"

text \<open>\<open>filename.rsplit('.', 1)[1]\<close>, for a name with a dot: the part after the last dot.\<close>

definition after_last_dot :: "string \<Rightarrow> string" where
  "after_last_dot filename = rev (takeWhile (\<lambda>c. c \<noteq> CHR ''.'') (rev filename))"

definition allowed_file :: "string \<Rightarrow> bool" where
  "allowed_file filename =
     (CHR ''.'' \<in> set filename \<and> str_lower (after_last_dot filename) \<in> set ALLOWED_EXTENSIONS)"

fun st_size :: "node \<Rightarrow> nat" where
  "st_size (File s m) = s"
| "st_size (Dir m kids) = 4096"

fun st_mtime :: "node \<Rightarrow> int" where
  "st_mtime (File s m) = m"
| "st_mtime (Dir m kids) = m"

text \<open>The loop of \<open>get_file_tree\<close> over the names of the directory.\<close>

fun file_items :: "node \<Rightarrow> string \<Rightarrow> string \<Rightarrow> string \<Rightarrow> string list \<Rightarrow> exn + FileItem list" where
  "file_items root cwd full_path path [] = Inr []"
| "file_items root cwd full_path path (name # names) =
     (let item_path = os_path_join full_path name;
          relative_path = (if path \<noteq> [] then os_path_join path name else name)
      in case os_stat root cwd item_path of
           Inl e \<Rightarrow> Inl e
         | Inr stat \<Rightarrow>
             (let is_dir = os_path_isdir root cwd item_path;
                  item = \<lparr>item_name = name,
                          item_path = relative_path,
                          item_type = (if is_dir then ''folder'' else ''file''),
                          item_size = (if is_dir then None else Some (st_size stat)),
                          item_modified = Some (st_mtime stat)\<rparr>
              in case file_items root cwd full_path path names of
                   Inl e \<Rightarrow> Inl e
                 | Inr items \<Rightarrow> Inr (item # items)))"

text \<open>
  \<open>items.sort(key=lambda x: (x.type == "file", x.name.lower()))\<close>: a stable sort on the
  pair, \<open>False\<close> before \<open>True\<close>, strings in the order of their characters' codes.
\<close>

definition sort_items :: "FileItem list \<Rightarrow> FileItem list" where
  "sort_items items = sort_key (\<lambda>x. (item_type x = ''file'', str_lower (item_name x))) items"

definition get_file_tree_try ::
  "node \<Rightarrow> string \<Rightarrow> int \<Rightarrow> claims \<Rightarrow> string \<Rightarrow> (exn + FileTreeResponse) \<times> node" where
  "get_file_tree_try root cwd now current_user path =
     (case subscript current_user ''id'' of
        Inl e \<Rightarrow> (Inl e, root)
      | Inr user_id \<Rightarrow>
     (case get_user_directory root cwd now user_id of
        (Inl e, root1) \<Rightarrow> (Inl e, root1)
      | (Inr user_dir, root1) \<Rightarrow>
     (case validate_path cwd user_dir path of
        Inl e \<Rightarrow> (Inl e, root1)
      | Inr full_path \<Rightarrow>
     (case makedirs root1 cwd now True full_path of
        (Inl e, root2) \<Rightarrow> (Inl e, root2)
      | (Inr u, root2) \<Rightarrow>
     (case os_listdir root2 cwd full_path of
        Inl e \<Rightarrow> (Inl e, root2)
      | Inr names \<Rightarrow>
     (case file_items root2 cwd full_path path names of
        Inl e \<Rightarrow> (Inl e, root2)
      | Inr items \<Rightarrow>
          (Inr \<lparr>tree = sort_items items, current_path = path\<rparr>, root2)))))))"

text \<open>\<open>except Exception as e\<close>: every exception of the body, an \<open>HTTPException\<close> too.\<close>

definition get_file_tree ::
  "node \<Rightarrow> string \<Rightarrow> int \<Rightarrow> claims \<Rightarrow> string \<Rightarrow> (exn + FileTreeResponse) \<times> node" where
  "get_file_tree root cwd now current_user path =
     (case get_file_tree_try root cwd now current_user path of
        (Inl e, root') \<Rightarrow>
          (Inl (HTTPException 500 (''Failed to read directory: '' @ str_exn e) []), root')
      | (Inr r, root') \<Rightarrow> (Inr r, root'))"

text \<open>
  \<open>upload_file\<close>: \<open>filename\<close> is \<open>file.filename\<close>, \<open>file_content\<close> the bytes of the body;
  \<open>now\<close> is the clock, whose whole seconds are the timestamp in the stored name.
\<close>

definition http_400 :: "string \<Rightarrow> exn" where
  "http_400 d = HTTPException 400 d []"

definition upload_file_try ::
  "node \<Rightarrow> string \<Rightarrow> int \<Rightarrow> claims \<Rightarrow> string option \<Rightarrow> string \<Rightarrow> string
     \<Rightarrow> (exn + UploadResponse) \<times> node" where
  "upload_file_try root cwd now current_user filename file_content path =
     (case filename of
        None \<Rightarrow> (Inl (http_400 ''No file selected''), root)
      | Some fname \<Rightarrow>
     (if fname = [] then (Inl (http_400 ''No file selected''), root)
      else if \<not> allowed_file fname then (Inl (http_400 ''File type not allowed''), root)
      else if length file_content > MAX_FILE_SIZE
        then (Inl (http_400 ''File size exceeds maximum limit (10MB)''), root)
      else
     (case subscript current_user ''id'' of
        Inl e \<Rightarrow> (Inl e, root)
      | Inr user_id \<Rightarrow>
     (case get_user_directory root cwd now user_id of
        (Inl e, root1) \<Rightarrow> (Inl e, root1)
      | (Inr user_dir, root1) \<Rightarrow>
     (case validate_path cwd user_dir path of
        Inl e \<Rightarrow> (Inl e, root1)
      | Inr upload_dir \<Rightarrow>
     (case makedirs root1 cwd now True upload_dir of
        (Inl e, root2) \<Rightarrow> (Inl e, root2)
      | (Inr u, root2) \<Rightarrow>
          (let timestamp = now;
               stored = str_int timestamp @ ''_'' @ fname;
               file_path = os_path_join upload_dir stored
           in case write_file root2 cwd now file_path (length file_content) of
                Inl e \<Rightarrow> (Inl e, root2)
              | Inr root3 \<Rightarrow>
                  (Inr \<lparr>message = ''File uploaded successfully'',
                        file_info = \<lparr>up_name = fname,
                                 up_stored_name = stored,
                                 up_size = length file_content,
                                 up_path = (if path \<noteq> [] then os_path_join path stored
                                            else stored)\<rparr>\<rparr>,
                   root3))))))))"

text \<open>\<open>except HTTPException: raise\<close>, then \<open>except Exception as e\<close>.\<close>

definition reraise :: "string \<Rightarrow> exn \<Rightarrow> exn" where
  "reraise what e =
     (if is_HTTPException e then e else HTTPException 500 (what @ str_exn e) [])"

definition upload_file ::
  "node \<Rightarrow> string \<Rightarrow> int \<Rightarrow> claims \<Rightarrow> string option \<Rightarrow> string \<Rightarrow> string
     \<Rightarrow> (exn + UploadResponse) \<times> node" where
  "upload_file root cwd now current_user filename file_content path =
     (case upload_file_try root cwd now current_user filename file_content path of
        (Inl e, root') \<Rightarrow> (Inl (reraise ''Upload failed: '' e), root')
      | (Inr r, root') \<Rightarrow> (Inr r, root'))"

definition create_folder_try ::
  "node \<Rightarrow> string \<Rightarrow> int \<Rightarrow> claims \<Rightarrow> string \<Rightarrow> string \<Rightarrow> (exn + FolderResponse) \<times> node" where
  "create_folder_try root cwd now current_user name path =
     (case subscript current_user ''id'' of
        Inl e \<Rightarrow> (Inl e, root)
      | Inr user_id \<Rightarrow>
     (case get_user_directory root cwd now user_id of
        (Inl e, root1) \<Rightarrow> (Inl e, root1)
      | (Inr user_dir, root1) \<Rightarrow>
     (case validate_path cwd user_dir path of
        Inl e \<Rightarrow> (Inl e, root1)
      | Inr parent_path \<Rightarrow>
          (let folder_path = os_path_join parent_path name
           in if os_path_exists root1 cwd folder_path
              then (Inl (http_400 ''Folder already exists''), root1)
              else (case makedirs root1 cwd now True folder_path of
                      (Inl e, root2) \<Rightarrow> (Inl e, root2)
                    | (Inr u, root2) \<Rightarrow>
                        (Inr \<lparr>folder_message = ''Folder created successfully'',
                              folder_name = name\<rparr>, root2))))))"

definition create_folder ::
  "node \<Rightarrow> string \<Rightarrow> int \<Rightarrow> claims \<Rightarrow> string \<Rightarrow> string \<Rightarrow> (exn + FolderResponse) \<times> node" where
  "create_folder root cwd now current_user name path =
     (case create_folder_try root cwd now current_user name path of
        (Inl e, root') \<Rightarrow> (Inl (reraise ''Failed to create folder: '' e), root')
      | (Inr r, root') \<Rightarrow> (Inr r, root'))"

text \<open>
  A small file system for the examples below: the server runs in \<open>/srv\<close>, and the user
  \<open>u1\<close> has two files and two folders.
\<close>

definition example_root :: node where
  "example_root =
     Dir 0 [(''srv'', Dir 0 [(''uploads'', Dir 0 [(''u1'',
       Dir 0 [(''a.txt'', File 3 5), (''Docs'', Dir 1 []), (''B.txt'', File 1 1),
              (''zed'', Dir 2 [])])])])]"

text \<open>\<open>sub in s\<close>: \<open>sub\<close> occurs in \<open>s\<close> as a run of adjacent characters.\<close>

definition str_contains :: "string \<Rightarrow> string \<Rightarrow> bool" where
  "str_contains s sub = sublist sub s"


definition plain_comps :: "string list \<Rightarrow> string list" where
  "plain_comps ys = filter (\<lambda>c. c \<noteq> [] \<and> c \<noteq> ''.'') ys"


definition clean :: "string \<Rightarrow> bool" where
  "clean c = (c \<noteq> [] \<and> c \<noteq> ''.'' \<and> c \<noteq> ''..'' \<and> CHR ''/'' \<notin> set c)"








text \<open>Reading a token and the predicates the statements below use.\<close>

fun token_payload :: "token \<Rightarrow> claims option" where
  "token_payload Malformed = None"
| "token_payload (Jws alg payload sig) = Some payload"



text \<open>
  The names python-jose validates in a payload besides \<open>exp\<close>; the round trip below is
  stated for claims without them.
\<close>

definition no_registered_claims :: "claims \<Rightarrow> bool" where
  "no_registered_claims data =
     (data ''nbf'' = None \<and> data ''iat'' = None \<and> data ''aud'' = None \<and> data ''iss'' = None
      \<and> data ''sub'' = None \<and> data ''jti'' = None \<and> data ''at_hash'' = None)"

section \<open>Properties of the session tokens\<close>

lemma create_access_token_Jws:
  "create_access_token hmac self now data expires_delta =
     Jws (algorithm self)
       (data(''exp'' \<mapsto> JInt (now + (case expires_delta of
                                         None \<Rightarrow> 86400
                                       | Some d \<Rightarrow> if d = 0 then 86400 else d))))
       (hmac (secret_key self)
         (algorithm self,
          data(''exp'' \<mapsto> JInt (now + (case expires_delta of
                                            None \<Rightarrow> 86400
                                          | Some d \<Rightarrow> if d = 0 then 86400 else d)))))"
  by (simp add: create_access_token_def jwt_encode_def timedelta_hours_def
      ACCESS_TOKEN_EXPIRE_HOURS_def Let_def split: option.split)

text \<open>
  C4 (as the claim states it, refuted): a token issued for the claims \<open>{"id": "u1"}\<close>
  has an \<open>exp\<close> field and no issued-at field, and with \<open>expires_delta\<close> of one hour its
  \<open>exp\<close> is one hour, not 24 hours, after the issue time.
\<close>

theorem create_access_token_no_issued_at:
  "token_payload (create_access_token (\<lambda>k m. ''mac'') (auth_middleware None) 1000
       [''id'' \<mapsto> JStr ''u1''] (Some 3600))
     = Some [''id'' \<mapsto> JStr ''u1'', ''exp'' \<mapsto> JInt 4600]
   \<and> [''id'' \<mapsto> JStr ''u1'', ''exp'' \<mapsto> JInt 4600] ''iat'' = None
   \<and> (4600::int) \<noteq> 1000 + 24 * 3600"
  by (simp add: create_access_token_Jws)

text \<open>
  C4 (amended): the payload of every issued token is the caller's claims with one field
  set, \<open>exp\<close>, to the issue time plus 24 hours, or plus \<open>expires_delta\<close> when a non-zero
  one is given; no issued-at field is added.
\<close>

theorem create_access_token_payload:
  "token_payload (create_access_token hmac self now data expires_delta) =
     Some (data(''exp'' \<mapsto> JInt (now + (case expires_delta of
                                             None \<Rightarrow> 24 * 3600
                                           | Some d \<Rightarrow> if d = 0 then 24 * 3600 else d))))"
  by (simp add: create_access_token_Jws split: option.split)

lemma verify_create_access_token:
  assumes "t \<le> now + (case expires_delta of None \<Rightarrow> 86400 | Some d \<Rightarrow> if d = 0 then 86400 else d)"
  shows "verify_token hmac self t (create_access_token hmac self now data expires_delta) =
     Inr (Some (data(''exp'' \<mapsto> JInt (now + (case expires_delta of
                                             None \<Rightarrow> 86400
                                           | Some d \<Rightarrow> if d = 0 then 86400 else d)))))"
  using assms by (simp add: create_access_token_Jws verify_token_def)

text \<open>
  C5 (as the claim states it, refuted): verifying the token issued for \<open>{"id": "u1"}\<close>
  at the issue time returns a dictionary with the extra field \<open>exp\<close>, not the claims.
\<close>

theorem verify_issue_not_identity:
  "verify_token (\<lambda>k m. ''mac'') (auth_middleware None) 1000
       (create_access_token (\<lambda>k m. ''mac'') (auth_middleware None) 1000
          [''id'' \<mapsto> JStr ''u1''] None)
     = Inr (Some [''id'' \<mapsto> JStr ''u1'', ''exp'' \<mapsto> JInt 87400])
   \<and> [''id'' \<mapsto> JStr ''u1'', ''exp'' \<mapsto> JInt 87400] \<noteq> [''id'' \<mapsto> JStr ''u1'']"
proof -
  have "[''id'' \<mapsto> JStr ''u1'', ''exp'' \<mapsto> JInt 87400] ''exp''
          \<noteq> [''id'' \<mapsto> JStr ''u1''] ''exp''"
    by simp
  then have "[''id'' \<mapsto> JStr ''u1'', ''exp'' \<mapsto> JInt 87400] \<noteq> [''id'' \<mapsto> JStr ''u1'']"
    by metis
  then show ?thesis
    by (simp add: verify_create_access_token)
qed

text \<open>
  C5 (amended): for claims without the other registered names, verifying the token
  issued for them (default lifetime), at any time up to and including its expiry,
  returns the claims with the field \<open>exp\<close> set to the issue time plus 24 hours, and every
  other field as given.
\<close>

theorem verify_issue_roundtrip:
  assumes "no_registered_claims data" and "t \<le> now + 24 * 3600"
  shows "verify_token hmac self t (create_access_token hmac self now data None) =
           Inr (Some (data(''exp'' \<mapsto> JInt (now + 24 * 3600))))"
  using assms(2) verify_create_access_token [of t now None hmac self data] by simp

theorem verify_issue_roundtrip_witness:
  "no_registered_claims [''id'' \<mapsto> JStr ''u1'', ''email'' \<mapsto> JStr ''a@b.c'']
   \<and> (5000::int) \<le> 1000 + 24 * 3600
   \<and> verify_token (\<lambda>k m. ''mac'') (auth_middleware (Some ''s3cret'')) 5000
       (create_access_token (\<lambda>k m. ''mac'') (auth_middleware (Some ''s3cret'')) 1000
          [''id'' \<mapsto> JStr ''u1'', ''email'' \<mapsto> JStr ''a@b.c''] None)
     = Inr (Some [''id'' \<mapsto> JStr ''u1'', ''email'' \<mapsto> JStr ''a@b.c'',
                  ''exp'' \<mapsto> JInt (1000 + 24 * 3600)])"
proof -
  have a: "no_registered_claims [''id'' \<mapsto> JStr ''u1'', ''email'' \<mapsto> JStr ''a@b.c'']"
    by (simp add: no_registered_claims_def)
  have b: "(5000::int) \<le> 1000 + 24 * 3600"
    by simp
  show ?thesis
    using a b verify_issue_roundtrip [OF a b, of "\<lambda>k m. ''mac''" "auth_middleware (Some ''s3cret'')"]
    by simp
qed



section \<open>Properties of path validation\<close>



lemma str_replace_Nil [simp]: "old \<noteq> [] \<Longrightarrow> str_replace old new [] = []"
  by (simp add: str_replace.simps)










lemma str_split_not_Nil [simp]: "str_split sep s \<noteq> []"
  by (induction s) (auto split: list.splits)



lemma str_split_append_sep:
  "str_split sep (a @ sep # b) = str_split sep a @ str_split sep b"
  by (induction a) (auto split: list.splits)

lemma str_split_snoc_sep:
  "str_split sep (a @ [sep]) = str_split sep a @ [[]]"
  using str_split_append_sep [of sep a "[]"] by simp

lemma normpath_loop_append:
  "normpath_loop i (xs @ ys) acc = normpath_loop i ys (normpath_loop i xs acc)"
  by (induction xs arbitrary: acc) auto

lemma normpath_loop_no_dotdot:
  "''..'' \<notin> set ys \<Longrightarrow> normpath_loop i ys acc = acc @ plain_comps ys"
  by (induction ys arbitrary: acc) (auto simp: plain_comps_def)

lemma str_join_Cons:
  "str_join sep (x # xs) = (if xs = [] then x else x @ sep @ str_join sep xs)"
  by (cases xs) auto

lemma str_join_append:
  "str_join sep (xs @ ys) =
     (if xs = [] then str_join sep ys
      else if ys = [] then str_join sep xs
      else str_join sep xs @ sep @ str_join sep ys)"
  by (induction xs) (auto simp: str_join_Cons)



lemma initial_slashes_extend:
  assumes "b \<noteq> []" and "u = [] \<or> hd u \<noteq> CHR ''/''"
  shows "initial_slashes (if last b = CHR ''/'' then b @ u else b @ ''/'' @ u) = initial_slashes b"
proof -
  obtain x b1 where b: "b = x # b1" using assms(1) by (cases b) auto
  show ?thesis
  proof (cases b1)
    case Nil
    then show ?thesis using b assms(2)
      by (cases u) (auto simp: initial_slashes_def startswith_def)
  next
    case (Cons y b2)
    show ?thesis
    proof (cases b2)
      case Nil
      then show ?thesis using b Cons assms(2)
        by (cases u) (auto simp: initial_slashes_def startswith_def)
    next
      case (Cons z b3)
      then show ?thesis using b \<open>b1 = y # b2\<close>
        by (auto simp: initial_slashes_def startswith_def)
    qed
  qed
qed

lemma split_extend:
  assumes "b \<noteq> []"
  shows "normpath_loop i (str_split CHR ''/'' (if last b = CHR ''/'' then b @ u else b @ ''/'' @ u)) []
         = normpath_loop i (str_split CHR ''/'' u) (normpath_loop i (str_split CHR ''/'' b) [])"
proof (cases "last b = CHR ''/''")
  case True
  then have b: "b = butlast b @ ''/''" using assms by (metis append_butlast_last_id)
  have "str_split CHR ''/'' (b @ u) = str_split CHR ''/'' (butlast b) @ str_split CHR ''/'' u"
    using str_split_append_sep [of "CHR ''/''" "butlast b" u] b by (metis append.assoc append_Cons append_Nil)
  moreover have "str_split CHR ''/'' b = str_split CHR ''/'' (butlast b) @ [[]]"
    using str_split_snoc_sep [of "CHR ''/''" "butlast b"] b by metis
  ultimately show ?thesis using True by (simp add: normpath_loop_append)
next
  case False
  then show ?thesis by (simp add: str_split_append_sep normpath_loop_append)
qed

lemma normpath_extend_comps:
  assumes "isabs b" and "u = [] \<or> hd u \<noteq> CHR ''/''" and "''..'' \<notin> set (str_split CHR ''/'' u)"
  shows "initial_slashes b \<noteq> 0
         \<and> normpath b = replicate (initial_slashes b) CHR ''/''
               @ str_join ''/'' (normpath_loop (initial_slashes b) (str_split CHR ''/'' b) [])
         \<and> normpath (if last b = CHR ''/'' then b @ u else b @ ''/'' @ u)
             = replicate (initial_slashes b) CHR ''/''
               @ str_join ''/'' (normpath_loop (initial_slashes b) (str_split CHR ''/'' b) []
                                  @ plain_comps (str_split CHR ''/'' u))"
proof -
  let ?p = "if last b = CHR ''/'' then b @ u else b @ ''/'' @ u"
  let ?i = "initial_slashes b"
  let ?cs = "normpath_loop ?i (str_split CHR ''/'' b) []"
  let ?es = "plain_comps (str_split CHR ''/'' u)"
  have bne: "b \<noteq> []" using assms(1) by (auto simp: isabs_def startswith_def)
  have i: "?i \<noteq> 0" using assms(1) by (simp add: isabs_def initial_slashes_def)
  have ip: "initial_slashes ?p = ?i" using initial_slashes_extend [OF bne assms(2)] .
  have pne: "?p \<noteq> []" using bne by simp
  have "normpath_loop ?i (str_split CHR ''/'' ?p) [] = ?cs @ ?es"
    using split_extend [OF bne, of ?i u] normpath_loop_no_dotdot [OF assms(3)]
    by simp
  then have np: "normpath ?p = replicate ?i CHR ''/'' @ str_join ''/'' (?cs @ ?es)"
    using i ip pne unfolding normpath_def Let_def by (simp del: replicate_eq_replicate)
  have nb: "normpath b = replicate ?i CHR ''/'' @ str_join ''/'' ?cs"
    using i bne unfolding normpath_def Let_def by simp
  show ?thesis using i np nb by blast
qed


lemma endswith_slash: "endswith a ''/'' = (a \<noteq> [] \<and> last a = CHR ''/'')"
  by (cases a rule: rev_cases) (auto simp: endswith_def suffix_def)

lemma startswith_slash: "startswith a ''/'' = (a \<noteq> [] \<and> hd a = CHR ''/'')"
  by (cases a) (auto simp: startswith_def)




lemma str_split_single: "sep \<notin> set x \<Longrightarrow> str_split sep x = [x]"
  by (induction x) auto









section \<open>Properties of the per-user directories\<close>

text \<open>
  C3 (as the claim states it, refuted): the identifier is used as it comes. The
  identifiers \<open>u1\<close> and \<open>u1/Docs\<close> get two directories of which the second lies within
  the first, and the identifier \<open>../../etc\<close> gets the directory \<open>/etc\<close>, created outside
  the base directory \<open>/srv/uploads\<close>.
\<close>

theorem get_user_directory_overlap:
  "fst (get_user_directory example_root ''/srv'' 9 (JStr ''u1'')) = Inr ''/srv/uploads/u1''
   \<and> fst (get_user_directory example_root ''/srv'' 9 (JStr ''u1/Docs'')) = Inr ''/srv/uploads/u1/Docs''
   \<and> proper_descendant ''/srv/uploads/u1'' ''/srv/uploads/u1/Docs''
   \<and> fst (get_user_directory example_root ''/srv'' 9 (JStr ''../../etc'')) = Inr ''/srv/uploads/../../etc''
   \<and> abspath ''/srv'' ''/srv/uploads/../../etc'' = ''/etc''
   \<and> os_path_isdir (snd (get_user_directory example_root ''/srv'' 9 (JStr ''../../etc''))) ''/srv'' ''/etc''
   \<and> path_within (os_path_join ''/srv'' ''uploads'') ''/etc'' = False"
  by code_simp

lemma get_user_directory_path:
  "get_user_directory root cwd now (JStr a) = (Inr ra, r1) \<Longrightarrow>
     ra = os_path_join (os_path_join cwd ''uploads'') a"
  unfolding get_user_directory_def Let_def
  by (auto split: prod.splits sum.splits)

lemma abspath_user_dir:
  assumes "isabs cwd" and "clean a"
  shows "initial_slashes (os_path_join cwd ''uploads'') \<noteq> 0
         \<and> abspath cwd (os_path_join cwd ''uploads'')
             = replicate (initial_slashes (os_path_join cwd ''uploads'')) CHR ''/''
               @ str_join ''/'' (normpath_loop (initial_slashes (os_path_join cwd ''uploads''))
                                  (str_split CHR ''/'' (os_path_join cwd ''uploads'')) [])
         \<and> abspath cwd (os_path_join (os_path_join cwd ''uploads'') a)
             = replicate (initial_slashes (os_path_join cwd ''uploads'')) CHR ''/''
               @ str_join ''/'' (normpath_loop (initial_slashes (os_path_join cwd ''uploads''))
                                  (str_split CHR ''/'' (os_path_join cwd ''uploads'')) [] @ [a])"
proof -
  let ?B = "os_path_join cwd ''uploads''"
  have cne: "cwd \<noteq> []" using assms(1) by (auto simp: isabs_def startswith_def)
  have B: "?B = (if last cwd = CHR ''/'' then cwd @ ''uploads'' else cwd @ ''/'' @ ''uploads'')"
    using cne by (simp add: os_path_join_def startswith_def endswith_slash)
  have Babs: "isabs ?B" using assms(1) cne B by (cases cwd) (auto simp: isabs_def startswith_def)
  have lB: "last ?B \<noteq> CHR ''/''" using B by simp
  have Bne: "?B \<noteq> []" using B by simp
  have a: "a \<noteq> []" "CHR ''/'' \<notin> set a" "a \<noteq> ''.''" "a \<noteq> ''..''"
    using assms(2) by (auto simp: clean_def)
  have hda: "hd a \<noteq> CHR ''/''" using a hd_in_set by metis
  have sa: "str_split CHR ''/'' a = [a]" using a by (simp add: str_split_single)
  have pa: "plain_comps (str_split CHR ''/'' a) = [a]" using sa a by (simp add: plain_comps_def)
  have ja: "os_path_join ?B a = ?B @ ''/'' @ a"
    using a hda lB Bne by (simp add: os_path_join_def startswith_slash endswith_slash)
  have jabs: "isabs (os_path_join ?B a)"
    using Babs ja Bne by (cases ?B) (auto simp: isabs_def startswith_def)
  have nd: "''..'' \<notin> set (str_split CHR ''/'' a)" using sa a by simp
  have u: "a = [] \<or> hd a \<noteq> CHR ''/''" using hda by simp
  let ?i = "initial_slashes ?B"
  let ?cs = "normpath_loop ?i (str_split CHR ''/'' ?B) []"
  have e: "?i \<noteq> 0"
    "normpath ?B = replicate ?i CHR ''/'' @ str_join ''/'' ?cs"
    "normpath (?B @ ''/'' @ a) = replicate ?i CHR ''/'' @ str_join ''/'' (?cs @ [a])"
    using normpath_extend_comps [OF Babs u nd] lB pa by auto
  have "abspath cwd ?B = normpath ?B" using Babs by (simp add: abspath_def)
  moreover have "abspath cwd (os_path_join ?B a) = normpath (?B @ ''/'' @ a)"
    using jabs ja by (simp add: abspath_def)
  ultimately show ?thesis using e by simp
qed

lemma clean_not_within:
  assumes "clean a" and "clean b" and "a \<noteq> b"
  shows "\<not> path_within (P @ a) (P @ b)"
proof -
  have a: "a \<noteq> []" "CHR ''/'' \<notin> set a" using assms(1) by (auto simp: clean_def)
  have b: "CHR ''/'' \<notin> set b" using assms(2) by (auto simp: clean_def)
  have "\<not> prefix (a @ ''/'') b"
  proof
    assume "prefix (a @ ''/'') b"
    then have "set (a @ ''/'') \<subseteq> set b" by (rule set_mono_prefix)
    then show False using b by auto
  qed
  then have 1: "\<not> strict_prefix ((P @ a) @ ''/'') (P @ b)" by (simp add: strict_prefix_def)
  have "last (P @ a) \<noteq> CHR ''/''" using a by (metis last_appendR last_in_set)
  then show ?thesis using 1 assms(3) by (simp add: path_within_def proper_descendant_def)
qed

text \<open>
  C3 (amended): with the working directory an absolute path, two distinct identifiers
  that are plain path segments (not empty, without a slash, and neither \<open>.\<close> nor \<open>..\<close>)
  get two directories whose canonical paths differ, neither of which lies within the
  other, and both of which lie below the one base directory \<open>uploads\<close> of the working
  directory. \<open>get_user_directory\<close> itself checks nothing about the identifier.
\<close>

theorem get_user_directory_plain_ids:
  assumes "isabs cwd" and "clean a" and "clean b" and "a \<noteq> b"
    and "get_user_directory root cwd now (JStr a) = (Inr ra, r1)"
    and "get_user_directory root' cwd now' (JStr b) = (Inr rb, r2)"
  shows "abspath cwd ra \<noteq> abspath cwd rb
         \<and> \<not> path_within (abspath cwd ra) (abspath cwd rb)
         \<and> \<not> path_within (abspath cwd rb) (abspath cwd ra)
         \<and> proper_descendant (abspath cwd (os_path_join cwd ''uploads'')) (abspath cwd ra)
         \<and> proper_descendant (abspath cwd (os_path_join cwd ''uploads'')) (abspath cwd rb)"
proof -
  let ?B = "os_path_join cwd ''uploads''"
  define S where "S = replicate (initial_slashes ?B) CHR ''/''"
  define cs where "cs = normpath_loop (initial_slashes ?B) (str_split CHR ''/'' ?B) []"
  have ra: "ra = os_path_join ?B a" and rb: "rb = os_path_join ?B b"
    using assms(5,6) get_user_directory_path by auto
  have S: "S \<noteq> []" "last S = CHR ''/''"
    using abspath_user_dir [OF assms(1,2)] by (auto simp: S_def)
  have nB: "abspath cwd ?B = S @ str_join ''/'' cs"
    and na: "abspath cwd ra = S @ str_join ''/'' (cs @ [a])"
    using abspath_user_dir [OF assms(1,2)] ra by (auto simp: S_def cs_def)
  have nb: "abspath cwd rb = S @ str_join ''/'' (cs @ [b])"
    using abspath_user_dir [OF assms(1,3)] rb by (auto simp: S_def cs_def)
  have ane: "a \<noteq> []" and bne: "b \<noteq> []" using assms(2,3) by (auto simp: clean_def)
  define P where "P = (if cs = [] then S else S @ str_join ''/'' cs @ ''/'')"
  have Xa: "abspath cwd ra = P @ a" using na by (simp add: P_def str_join_append)
  have Xb: "abspath cwd rb = P @ b" using nb by (simp add: P_def str_join_append)
  have da: "proper_descendant (abspath cwd ?B) (abspath cwd ra)"
    using Xa nB S ane by (auto simp: P_def proper_descendant_def strict_prefix_def)
  have db: "proper_descendant (abspath cwd ?B) (abspath cwd rb)"
    using Xb nB S bne by (auto simp: P_def proper_descendant_def strict_prefix_def)
  have ne: "abspath cwd ra \<noteq> abspath cwd rb" using Xa Xb assms(4) by simp
  have w1: "\<not> path_within (abspath cwd ra) (abspath cwd rb)"
    unfolding Xa Xb by (rule clean_not_within [OF assms(2,3,4)])
  have w2: "\<not> path_within (abspath cwd rb) (abspath cwd ra)"
    unfolding Xa Xb by (rule clean_not_within [OF assms(3,2) assms(4) [symmetric]])
  show ?thesis using ne w1 w2 da db by simp
qed

theorem get_user_directory_plain_ids_witness:
  "isabs ''/srv'' \<and> clean ''user1'' \<and> clean ''user12'' \<and> ''user1'' \<noteq> ''user12''
   \<and> get_user_directory example_root ''/srv'' 9 (JStr ''user1'')
       = (Inr ''/srv/uploads/user1'',
          Dir 0 [(''srv'', Dir 0 [(''uploads'', Dir 9 [(''u1'',
            Dir 0 [(''a.txt'', File 3 5), (''Docs'', Dir 1 []), (''B.txt'', File 1 1),
                   (''zed'', Dir 2 [])]), (''user1'', Dir 9 [])])])])
   \<and> get_user_directory example_root ''/srv'' 9 (JStr ''user12'')
       = (Inr ''/srv/uploads/user12'',
          Dir 0 [(''srv'', Dir 0 [(''uploads'', Dir 9 [(''u1'',
            Dir 0 [(''a.txt'', File 3 5), (''Docs'', Dir 1 []), (''B.txt'', File 1 1),
                   (''zed'', Dir 2 [])]), (''user12'', Dir 9 [])])])])
   \<and> abspath ''/srv'' ''/srv/uploads/user1'' \<noteq> abspath ''/srv'' ''/srv/uploads/user12''
   \<and> path_within (abspath ''/srv'' ''/srv/uploads/user1'') (abspath ''/srv'' ''/srv/uploads/user12'') = False
   \<and> path_within (abspath ''/srv'' ''/srv/uploads/user12'') (abspath ''/srv'' ''/srv/uploads/user1'') = False
   \<and> proper_descendant (abspath ''/srv'' (os_path_join ''/srv'' ''uploads''))
         (abspath ''/srv'' ''/srv/uploads/user1'')"
proof -
  have h: "isabs ''/srv''" "clean ''user1''" "clean ''user12''" "''user1'' \<noteq> ''user12''"
    by code_simp+
  have g1: "get_user_directory example_root ''/srv'' 9 (JStr ''user1'')
       = (Inr ''/srv/uploads/user1'',
          Dir 0 [(''srv'', Dir 0 [(''uploads'', Dir 9 [(''u1'',
            Dir 0 [(''a.txt'', File 3 5), (''Docs'', Dir 1 []), (''B.txt'', File 1 1),
                   (''zed'', Dir 2 [])]), (''user1'', Dir 9 [])])])])"
    by code_simp
  have g2: "get_user_directory example_root ''/srv'' 9 (JStr ''user12'')
       = (Inr ''/srv/uploads/user12'',
          Dir 0 [(''srv'', Dir 0 [(''uploads'', Dir 9 [(''u1'',
            Dir 0 [(''a.txt'', File 3 5), (''Docs'', Dir 1 []), (''B.txt'', File 1 1),
                   (''zed'', Dir 2 [])]), (''user12'', Dir 9 [])])])])"
    by code_simp
  show ?thesis
    using get_user_directory_plain_ids [OF h g1 g2] h g1 g2 by simp
qed

section \<open>Properties of the file operations\<close>

lemma oserror_not_http [simp]: "\<not> is_HTTPException (oserror x p)"
  by (cases x) auto

lemma os_mkdir_not_http: "os_mkdir root cwd now p = Inl e \<Longrightarrow> \<not> is_HTTPException e"
  unfolding os_mkdir_def Let_def
  by (auto split: if_splits sum.splits option.splits node.splits errno.splits
           )

lemma makedirs_mkdir_not_http:
  "makedirs_mkdir root cwd now ok p = (Inl e, r) \<Longrightarrow> \<not> is_HTTPException e"
  unfolding makedirs_mkdir_def
  by (auto split: sum.splits if_splits dest: os_mkdir_not_http)

lemma makedirs_not_http:
  "makedirs root cwd now ok p = (Inl e, r) \<Longrightarrow> \<not> is_HTTPException e"
proof (induction root cwd now ok p arbitrary: e r rule: makedirs.induct)
  case (1 root cwd now exist_ok name)
  show ?case
  proof (cases "fst (makedirs_parts name) \<noteq> [] \<and> snd (makedirs_parts name) \<noteq> []
                 \<and> \<not> os_path_exists root cwd (fst (makedirs_parts name))")
    case False
    then have "makedirs root cwd now exist_ok name = makedirs_mkdir root cwd now exist_ok name"
      by (subst makedirs.simps) auto
    then show ?thesis using "1.prems" makedirs_mkdir_not_http by metis
  next
    case True
    obtain x r1 where rec: "makedirs root cwd now exist_ok (fst (makedirs_parts name)) = (x, r1)"
      by (cases "makedirs root cwd now exist_ok (fst (makedirs_parts name))")
    have eq: "makedirs root cwd now exist_ok name =
        (case x of
           Inl e \<Rightarrow> if is_FileExistsError e
                     then (if snd (makedirs_parts name) = ''.'' then (Inr (), r1)
                           else makedirs_mkdir r1 cwd now exist_ok name)
                     else (Inl e, r1)
         | Inr u \<Rightarrow> if snd (makedirs_parts name) = ''.'' then (Inr (), r1)
                     else makedirs_mkdir r1 cwd now exist_ok name)"
      using True rec by (subst makedirs.simps) (auto split: sum.splits)
    show ?thesis
    proof (cases x)
      case (Inl e')
      then have "\<not> is_HTTPException e'" using "1.IH" [OF True] rec by simp
      then show ?thesis using eq Inl "1.prems"
        by (auto split: if_splits dest: makedirs_mkdir_not_http makedirs_mkdir_not_http [OF sym])
    next
      case (Inr u)
      then show ?thesis using eq "1.prems"
        by (auto split: if_splits dest: makedirs_mkdir_not_http makedirs_mkdir_not_http [OF sym])
    qed
  qed
qed

lemma get_user_directory_not_http:
  "get_user_directory root cwd now uid = (Inl e, r) \<Longrightarrow> \<not> is_HTTPException e"
  unfolding get_user_directory_def Let_def join_type_error_def
  by (auto split: jval.splits prod.splits sum.splits dest: makedirs_not_http)

lemma write_file_not_http: "write_file root cwd now p sz = Inl e \<Longrightarrow> \<not> is_HTTPException e"
  unfolding write_file_def Let_def
  by (auto split: if_splits sum.splits option.splits node.splits
           )

lemma subscript_not_http: "subscript d k = Inl e \<Longrightarrow> \<not> is_HTTPException e"
  by (auto simp: subscript_def split: option.splits)

lemma validate_path_error: "validate_path cwd b p = Inl e \<Longrightarrow> e = access_denied"
  by (auto simp: validate_path_def Let_def split: if_splits)

lemma upload_file_try_http:
  assumes "upload_file_try root cwd now u fn content path = (Inl e, r)" and "is_HTTPException e"
  shows "e = http_400 ''No file selected'' \<or> e = http_400 ''File type not allowed''
         \<or> e = http_400 ''File size exceeds maximum limit (10MB)'' \<or> e = access_denied"
  using assms unfolding upload_file_try_def Let_def
  by (auto split: option.splits if_splits sum.splits prod.splits
           dest: subscript_not_http get_user_directory_not_http makedirs_not_http
                 write_file_not_http validate_path_error)

lemma upload_file_try_checked:
  assumes "allowed_file fname" and "length content \<le> MAX_FILE_SIZE"
    and "upload_file_try root cwd now u (Some fname) content path = (Inl e, r)"
    and "is_HTTPException e"
  shows "e = access_denied"
proof -
  have "fname \<noteq> []" using assms(1) by (auto simp: allowed_file_def)
  then show ?thesis
    using assms unfolding upload_file_try_def Let_def
    by (auto split: option.splits if_splits sum.splits prod.splits
             dest: subscript_not_http get_user_directory_not_http makedirs_not_http
                   write_file_not_http validate_path_error)
qed

lemma upload_file_try_size:
  assumes "upload_file_try root cwd now u fn content path = (Inr resp, r)"
  shows "up_size (file_info resp) = length content"
  using assms unfolding upload_file_try_def Let_def
  by (auto split: option.splits if_splits sum.splits prod.splits)

text \<open>
  C7: the size limit is 10 MiB; a file named \<open>payload.exe\<close> is refused with the 400
  error "File type not allowed", whatever its size; a file with an allowed name and a
  body of one byte more than the limit is refused with the 400 error "File size exceeds
  maximum limit (10MB)"; with a body of exactly the limit it passes both checks: the
  upload does not fail with a 400 error, and when it returns it reports that size.
\<close>

theorem upload_file_limits:
  "MAX_FILE_SIZE = 10 * 1024 * 1024
   \<and> fst (upload_file root cwd now u (Some ''payload.exe'') content path)
       = Inl (http_400 ''File type not allowed'')
   \<and> (allowed_file fname \<and> length content = MAX_FILE_SIZE + 1 \<longrightarrow>
        fst (upload_file root cwd now u (Some fname) content path)
          = Inl (http_400 ''File size exceeds maximum limit (10MB)''))
   \<and> (allowed_file fname \<and> length content = MAX_FILE_SIZE \<longrightarrow>
        (case fst (upload_file root cwd now u (Some fname) content path) of
           Inl e \<Rightarrow> status_code e \<noteq> Some 400
         | Inr resp \<Rightarrow> up_size (file_info resp) = MAX_FILE_SIZE))"
proof (intro conjI impI)
  show "MAX_FILE_SIZE = 10 * 1024 * 1024" by (simp add: MAX_FILE_SIZE_def)
next
  have "\<not> allowed_file ''payload.exe''" by code_simp
  then show "fst (upload_file root cwd now u (Some ''payload.exe'') content path)
               = Inl (http_400 ''File type not allowed'')"
    by (simp add: upload_file_def upload_file_try_def reraise_def http_400_def)
next
  assume a: "allowed_file fname \<and> length content = MAX_FILE_SIZE + 1"
  then have "fname \<noteq> []" by (auto simp: allowed_file_def)
  then show "fst (upload_file root cwd now u (Some fname) content path)
               = Inl (http_400 ''File size exceeds maximum limit (10MB)'')"
    using a by (simp add: upload_file_def upload_file_try_def reraise_def http_400_def)
next
  assume a: "allowed_file fname \<and> length content = MAX_FILE_SIZE"
  obtain x r where t: "upload_file_try root cwd now u (Some fname) content path = (x, r)"
    by (cases "upload_file_try root cwd now u (Some fname) content path")
  show "case fst (upload_file root cwd now u (Some fname) content path) of
          Inl e \<Rightarrow> status_code e \<noteq> Some 400
        | Inr resp \<Rightarrow> up_size (file_info resp) = MAX_FILE_SIZE"
  proof (cases x)
    case (Inl e)
    have "status_code (reraise ''Upload failed: '' e) \<noteq> Some 400"
    proof (cases "is_HTTPException e")
      case True
      then have "e = access_denied"
        using upload_file_try_checked [of fname content root cwd now u path e r] a t Inl by simp
      then show ?thesis by (simp add: reraise_def access_denied_def)
    next
      case False
      then show ?thesis by (simp add: reraise_def)
    qed
    then show ?thesis using t Inl by (simp add: upload_file_def)
  next
    case (Inr resp)
    then show ?thesis using t a upload_file_try_size [of root cwd now u "Some fname" content path resp r]
      by (simp add: upload_file_def)
  qed
qed

lemma write_file_example:
  "write_file example_root ''/srv'' 9 ''/srv/uploads/u1/9_report.pdf'' sz =
     Inr (Dir 0 [(''srv'', Dir 0 [(''uploads'', Dir 0 [(''u1'',
       Dir 9 [(''a.txt'', File 3 5), (''Docs'', Dir 1 []), (''B.txt'', File 1 1),
              (''zed'', Dir 2 []), (''9_report.pdf'', File sz 9)])])])])"
  by code_simp

theorem upload_file_limits_witness:
  "allowed_file ''report.pdf''
   \<and> length (replicate (MAX_FILE_SIZE + 1) CHR ''x'') = MAX_FILE_SIZE + 1
   \<and> fst (upload_file example_root ''/srv'' 9 [''id'' \<mapsto> JStr ''u1''] (Some ''report.pdf'')
            (replicate (MAX_FILE_SIZE + 1) CHR ''x'') [])
       = Inl (http_400 ''File size exceeds maximum limit (10MB)'')
   \<and> length (replicate MAX_FILE_SIZE CHR ''x'') = MAX_FILE_SIZE
   \<and> fst (upload_file example_root ''/srv'' 9 [''id'' \<mapsto> JStr ''u1''] (Some ''report.pdf'')
            (replicate MAX_FILE_SIZE CHR ''x'') [])
       = Inr \<lparr>message = ''File uploaded successfully'',
              file_info = \<lparr>up_name = ''report.pdf'', up_stored_name = ''9_report.pdf'',
                           up_size = MAX_FILE_SIZE, up_path = ''9_report.pdf''\<rparr>\<rparr>"
proof -
  have al: "allowed_file ''report.pdf''" by code_simp
  have ud: "get_user_directory example_root ''/srv'' 9 (JStr ''u1'')
              = (Inr ''/srv/uploads/u1'', example_root)"
    by code_simp
  have md: "makedirs example_root ''/srv'' 9 True ''/srv/uploads/u1'' = (Inr (), example_root)"
    by code_simp
  have st: "str_int 9 = ''9''" by code_simp
  have jn: "os_path_join ''/srv/uploads/u1'' ''9_report.pdf'' = ''/srv/uploads/u1/9_report.pdf''"
    by code_simp
  have ok: "fst (upload_file example_root ''/srv'' 9 [''id'' \<mapsto> JStr ''u1''] (Some ''report.pdf'')
            (replicate MAX_FILE_SIZE CHR ''x'') [])
       = Inr \<lparr>message = ''File uploaded successfully'',
              file_info = \<lparr>up_name = ''report.pdf'', up_stored_name = ''9_report.pdf'',
                           up_size = MAX_FILE_SIZE, up_path = ''9_report.pdf''\<rparr>\<rparr>"
    unfolding upload_file_def upload_file_try_def Let_def
    using al ud md jn write_file_example
    by (simp add: subscript_def validate_path_def st)
  show ?thesis
    using upload_file_limits [of example_root "''/srv''" 9 "[''id'' \<mapsto> JStr ''u1'']"
            "replicate (MAX_FILE_SIZE + 1) CHR ''x''" "[]" "''report.pdf''"]
          upload_file_limits [of example_root "''/srv''" 9 "[''id'' \<mapsto> JStr ''u1'']"
            "replicate MAX_FILE_SIZE CHR ''x''" "[]" "''report.pdf''"]
          al ok
    by simp
qed

lemma sorted_pairs_split:
  fixes f :: "'a \<Rightarrow> bool" and g :: "'a \<Rightarrow> 'b::linorder"
  assumes "sorted (map (\<lambda>x. (f x, g x)) xs)"
  shows "xs = filter (\<lambda>x. \<not> f x) xs @ filter f xs
         \<and> sorted (map g (filter (\<lambda>x. \<not> f x) xs))
         \<and> sorted (map g (filter f xs))"
  using assms
proof (induction xs)
  case Nil
  then show ?case by simp
next
  case (Cons x xs)
  have ih: "xs = filter (\<lambda>x. \<not> f x) xs @ filter f xs"
    "sorted (map g (filter (\<lambda>x. \<not> f x) xs))" "sorted (map g (filter f xs))"
    using Cons by auto
  have le: "\<forall>y\<in>set xs. (f x, g x) \<le> (f y, g y)" using Cons.prems by auto
  show ?case
  proof (cases "f x")
    case True
    have all: "\<forall>y\<in>set xs. f y \<and> g x \<le> g y"
      using le True by (auto simp: less_eq_prod_def)
    then have "filter (\<lambda>x. \<not> f x) xs = []" by (auto simp: filter_empty_conv)
    then show ?thesis using True ih all by auto
  next
    case False
    have "\<forall>y\<in>set xs. \<not> f y \<longrightarrow> g x \<le> g y"
      using le False by (auto simp: less_eq_prod_def)
    then show ?thesis using False ih by auto
  qed
qed

lemma file_items_types:
  "file_items root cwd full_path path names = Inr items \<Longrightarrow>
     \<forall>x\<in>set items. item_type x = ''folder'' \<or> item_type x = ''file''"
proof (induction names arbitrary: items)
  case Nil
  then show ?case by simp
next
  case (Cons n names)
  then show ?case
    by (auto simp: Let_def split: sum.splits if_splits)
qed

lemma get_file_tree_Inr:
  assumes "get_file_tree root cwd now current_user path = (Inr r, root')"
  shows "\<exists>full_path root2 names items.
           file_items root2 cwd full_path path names = Inr items
           \<and> r = \<lparr>tree = sort_items items, current_path = path\<rparr>"
  using assms unfolding get_file_tree_def get_file_tree_try_def
  by (auto split: sum.splits prod.splits)

text \<open>
  C8: the entries \<open>get_file_tree\<close> returns are the folders followed by the files, and
  the names within each group ascend when compared in lower case.
\<close>

theorem get_file_tree_order:
  assumes "get_file_tree root cwd now current_user path = (Inr r, root')"
  shows "tree r = filter (\<lambda>x. item_type x = ''folder'') (tree r)
                  @ filter (\<lambda>x. item_type x = ''file'') (tree r)
         \<and> sorted (map (\<lambda>x. str_lower (item_name x))
                     (filter (\<lambda>x. item_type x = ''folder'') (tree r)))
         \<and> sorted (map (\<lambda>x. str_lower (item_name x))
                     (filter (\<lambda>x. item_type x = ''file'') (tree r)))"
proof -
  obtain full_path root2 names items where
    fi: "file_items root2 cwd full_path path names = Inr items"
    and r: "r = \<lparr>tree = sort_items items, current_path = path\<rparr>"
    using get_file_tree_Inr [OF assms] by blast
  let ?t = "sort_items items"
  have ty: "\<forall>x\<in>set ?t. item_type x = ''folder'' \<or> item_type x = ''file''"
    using file_items_types [OF fi] by (simp add: sort_items_def)
  have fl: "filter (\<lambda>x. \<not> item_type x = ''file'') ?t = filter (\<lambda>x. item_type x = ''folder'') ?t"
    by (rule filter_cong) (use ty in auto)
  have "sorted (map (\<lambda>x. (item_type x = ''file'', str_lower (item_name x))) ?t)"
    by (simp add: sort_items_def)
  from sorted_pairs_split [OF this] show ?thesis
    unfolding fl using r by simp
qed

theorem get_file_tree_order_witness:
  "get_file_tree example_root ''/srv'' 9 [''id'' \<mapsto> JStr ''u1''] [] =
     (Inr \<lparr>tree =
         [\<lparr>item_name = ''Docs'', item_path = ''Docs'', item_type = ''folder'',
           item_size = None, item_modified = Some 1\<rparr>,
          \<lparr>item_name = ''zed'', item_path = ''zed'', item_type = ''folder'',
           item_size = None, item_modified = Some 2\<rparr>,
          \<lparr>item_name = ''a.txt'', item_path = ''a.txt'', item_type = ''file'',
           item_size = Some 3, item_modified = Some 5\<rparr>,
          \<lparr>item_name = ''B.txt'', item_path = ''B.txt'', item_type = ''file'',
           item_size = Some 1, item_modified = Some 1\<rparr>],
        current_path = []\<rparr>, example_root)
   \<and> sorted (map str_lower [''Docs'', ''zed''])
   \<and> sorted (map str_lower [''a.txt'', ''B.txt''])"
proof -
  have v: "get_file_tree example_root ''/srv'' 9 [''id'' \<mapsto> JStr ''u1''] [] =
     (Inr \<lparr>tree =
         [\<lparr>item_name = ''Docs'', item_path = ''Docs'', item_type = ''folder'',
           item_size = None, item_modified = Some 1\<rparr>,
          \<lparr>item_name = ''zed'', item_path = ''zed'', item_type = ''folder'',
           item_size = None, item_modified = Some 2\<rparr>,
          \<lparr>item_name = ''a.txt'', item_path = ''a.txt'', item_type = ''file'',
           item_size = Some 3, item_modified = Some 5\<rparr>,
          \<lparr>item_name = ''B.txt'', item_path = ''B.txt'', item_type = ''file'',
           item_size = Some 1, item_modified = Some 1\<rparr>],
        current_path = []\<rparr>, example_root)"
    by code_simp
  show ?thesis
    using get_file_tree_order [OF v] v by simp
qed

text \<open>
  C2 (the code at a failing input): \<open>create_folder\<close> validates the parent path and then
  joins the folder name to it unchecked. For the user \<open>u1\<close>, whose root is
  \<open>/srv/uploads/u1\<close>, the name \<open>../../escape\<close> creates \<open>/srv/escape\<close> and the name
  \<open>/tmp/evil\<close> creates \<open>/tmp/evil\<close>; both calls succeed, and neither directory is within
  the root.
\<close>

theorem create_folder_outside_root:
  "fst (get_user_directory example_root ''/srv'' 9 (JStr ''u1'')) = Inr ''/srv/uploads/u1''
   \<and> fst (create_folder example_root ''/srv'' 9 [''id'' \<mapsto> JStr ''u1''] ''../../escape'' [])
       = Inr \<lparr>folder_message = ''Folder created successfully'', folder_name = ''../../escape''\<rparr>
   \<and> os_path_isdir example_root ''/srv'' ''/srv/escape'' = False
   \<and> os_path_isdir (snd (create_folder example_root ''/srv'' 9 [''id'' \<mapsto> JStr ''u1'']
                              ''../../escape'' []))
         ''/srv'' ''/srv/escape'' = True
   \<and> path_within ''/srv/uploads/u1'' ''/srv/escape'' = False
   \<and> fst (create_folder example_root ''/srv'' 9 [''id'' \<mapsto> JStr ''u1''] ''/tmp/evil'' ''Docs'')
       = Inr \<lparr>folder_message = ''Folder created successfully'', folder_name = ''/tmp/evil''\<rparr>
   \<and> os_path_isdir (snd (create_folder example_root ''/srv'' 9 [''id'' \<mapsto> JStr ''u1'']
                              ''/tmp/evil'' ''Docs''))
         ''/srv'' ''/tmp/evil'' = True
   \<and> path_within ''/srv/uploads/u1'' ''/tmp/evil'' = False"
  by code_simp

text \<open>
  C9 (as the claim states it, refuted): listing, or uploading to, the path \<open>a.txt\<close>,
  which is a regular file, fails with a 500 error whose message holds the resolved
  absolute path \<open>/srv/uploads/u1/a.txt\<close>.
\<close>

theorem error_detail_has_resolved_path:
  "validate_path ''/srv'' ''/srv/uploads/u1'' ''a.txt'' = Inr ''/srv/uploads/u1/a.txt''
   \<and> fst (get_file_tree example_root ''/srv'' 9 [''id'' \<mapsto> JStr ''u1''] ''a.txt'')
       = Inl (HTTPException 500
               (''Failed to read directory: [Errno 17] File exists: ''
                @ py_repr ''/srv/uploads/u1/a.txt'') [])
   \<and> fst (upload_file example_root ''/srv'' 9 [''id'' \<mapsto> JStr ''u1''] (Some ''n.txt'') ''abc'' ''a.txt'')
       = Inl (HTTPException 500
               (''Upload failed: [Errno 17] File exists: ''
                @ py_repr ''/srv/uploads/u1/a.txt'') [])
   \<and> str_contains (''Failed to read directory: [Errno 17] File exists: ''
                     @ py_repr ''/srv/uploads/u1/a.txt'') ''/srv/uploads/u1/a.txt''
   \<and> str_contains (''Upload failed: [Errno 17] File exists: ''
                     @ py_repr ''/srv/uploads/u1/a.txt'') ''/srv/uploads/u1/a.txt''"
proof -
  have v: "validate_path ''/srv'' ''/srv/uploads/u1'' ''a.txt'' = Inr ''/srv/uploads/u1/a.txt''"
    by code_simp
  have g: "fst (get_file_tree example_root ''/srv'' 9 [''id'' \<mapsto> JStr ''u1''] ''a.txt'')
       = Inl (HTTPException 500
               (''Failed to read directory: [Errno 17] File exists: ''
                @ py_repr ''/srv/uploads/u1/a.txt'') [])"
    by code_simp
  have al: "allowed_file ''n.txt''" by code_simp
  have ud: "get_user_directory example_root ''/srv'' 9 (JStr ''u1'')
              = (Inr ''/srv/uploads/u1'', example_root)"
    by code_simp
  have md: "makedirs example_root ''/srv'' 9 True ''/srv/uploads/u1/a.txt''
              = (Inl (FileExistsError ''/srv/uploads/u1/a.txt''), example_root)"
    by code_simp
  have u: "fst (upload_file example_root ''/srv'' 9 [''id'' \<mapsto> JStr ''u1''] (Some ''n.txt'') ''abc'' ''a.txt'')
       = Inl (HTTPException 500
               (''Upload failed: [Errno 17] File exists: ''
                @ py_repr ''/srv/uploads/u1/a.txt'') [])"
    unfolding upload_file_def upload_file_try_def Let_def
    using al ud md v
    by (simp add: subscript_def MAX_FILE_SIZE_def reraise_def)
  have c1: "str_contains (''Failed to read directory: [Errno 17] File exists: ''
                     @ py_repr ''/srv/uploads/u1/a.txt'') ''/srv/uploads/u1/a.txt''"
    by code_simp
  have c2: "str_contains (''Upload failed: [Errno 17] File exists: ''
                     @ py_repr ''/srv/uploads/u1/a.txt'') ''/srv/uploads/u1/a.txt''"
    by code_simp
  show ?thesis using v g u c1 c2 by simp
qed

lemma create_folder_try_http:
  assumes "create_folder_try root cwd now u name path = (Inl e, r)" and "is_HTTPException e"
  shows "e = http_400 ''Folder already exists'' \<or> e = access_denied"
  using assms unfolding create_folder_try_def Let_def
  by (auto split: option.splits if_splits sum.splits prod.splits
           dest: subscript_not_http get_user_directory_not_http makedirs_not_http
                 validate_path_error)

text \<open>
  C9 (amended): for the list, upload and create-folder operations, an error is either
  one of the fixed texts of the 400 and 403 errors, or the 500 error of the catch-all
  handler, whose message is a fixed prefix followed by the text of the exception the
  operation raised (for an operating-system error that text holds the path the failing
  call was given). The list operation has the catch-all handler only.
\<close>

theorem error_details:
  "(get_file_tree root cwd now u path = (Inl e, r) \<longrightarrow>
      (\<exists>x. fst (get_file_tree_try root cwd now u path) = Inl x
            \<and> e = HTTPException 500 (''Failed to read directory: '' @ str_exn x) []))
   \<and> (upload_file root cwd now u fn content path = (Inl e, r) \<longrightarrow>
        e \<in> {http_400 ''No file selected'', http_400 ''File type not allowed'',
              http_400 ''File size exceeds maximum limit (10MB)'', access_denied}
        \<or> (\<exists>x. fst (upload_file_try root cwd now u fn content path) = Inl x
                 \<and> e = HTTPException 500 (''Upload failed: '' @ str_exn x) []))
   \<and> (create_folder root cwd now u name path = (Inl e, r) \<longrightarrow>
        e \<in> {http_400 ''Folder already exists'', access_denied}
        \<or> (\<exists>x. fst (create_folder_try root cwd now u name path) = Inl x
                 \<and> e = HTTPException 500 (''Failed to create folder: '' @ str_exn x) []))"
proof (intro conjI impI)
  assume "get_file_tree root cwd now u path = (Inl e, r)"
  then show "\<exists>x. fst (get_file_tree_try root cwd now u path) = Inl x
            \<and> e = HTTPException 500 (''Failed to read directory: '' @ str_exn x) []"
    unfolding get_file_tree_def by (auto split: prod.splits sum.splits)
next
  assume a: "upload_file root cwd now u fn content path = (Inl e, r)"
  then obtain x where x: "upload_file_try root cwd now u fn content path = (Inl x, r)"
    and e: "e = reraise ''Upload failed: '' x"
    unfolding upload_file_def by (auto split: prod.splits sum.splits)
  show "e \<in> {http_400 ''No file selected'', http_400 ''File type not allowed'',
              http_400 ''File size exceeds maximum limit (10MB)'', access_denied}
        \<or> (\<exists>x. fst (upload_file_try root cwd now u fn content path) = Inl x
                 \<and> e = HTTPException 500 (''Upload failed: '' @ str_exn x) [])"
  proof (cases "is_HTTPException x")
    case True
    then show ?thesis using upload_file_try_http [OF x True] e by (auto simp: reraise_def)
  next
    case False
    then show ?thesis using x e by (auto simp: reraise_def)
  qed
next
  assume a: "create_folder root cwd now u name path = (Inl e, r)"
  then obtain x where x: "create_folder_try root cwd now u name path = (Inl x, r)"
    and e: "e = reraise ''Failed to create folder: '' x"
    unfolding create_folder_def by (auto split: prod.splits sum.splits)
  show "e \<in> {http_400 ''Folder already exists'', access_denied}
        \<or> (\<exists>x. fst (create_folder_try root cwd now u name path) = Inl x
                 \<and> e = HTTPException 500 (''Failed to create folder: '' @ str_exn x) [])"
  proof (cases "is_HTTPException x")
    case True
    then show ?thesis using create_folder_try_http [OF x True] e by (auto simp: reraise_def)
  next
    case False
    then show ?thesis using x e by (auto simp: reraise_def)
  qed
qed

theorem error_details_witness:
  "get_file_tree example_root ''/srv'' 9 [''id'' \<mapsto> JStr ''u1''] ''B.txt''
     = (Inl (HTTPException 500
              (''Failed to read directory: ''
               @ str_exn (FileExistsError ''/srv/uploads/u1/B.txt'')) []), example_root)
   \<and> fst (get_file_tree_try example_root ''/srv'' 9 [''id'' \<mapsto> JStr ''u1''] ''B.txt'')
       = Inl (FileExistsError ''/srv/uploads/u1/B.txt'')
   \<and> (\<exists>x. fst (get_file_tree_try example_root ''/srv'' 9 [''id'' \<mapsto> JStr ''u1''] ''B.txt'')
              = Inl x
            \<and> HTTPException 500
                 (''Failed to read directory: ''
                  @ str_exn (FileExistsError ''/srv/uploads/u1/B.txt'')) []
                = HTTPException 500 (''Failed to read directory: '' @ str_exn x) [])
   \<and> upload_file example_root ''/srv'' 9 [''id'' \<mapsto> JStr ''u1''] None ''abc'' []
       = (Inl (http_400 ''No file selected''), example_root)
   \<and> (http_400 ''No file selected''
        \<in> {http_400 ''No file selected'', http_400 ''File type not allowed'',
            http_400 ''File size exceeds maximum limit (10MB)'', access_denied}
        \<or> (\<exists>x. fst (upload_file_try example_root ''/srv'' 9 [''id'' \<mapsto> JStr ''u1''] None
                        ''abc'' []) = Inl x
                 \<and> http_400 ''No file selected''
                     = HTTPException 500 (''Upload failed: '' @ str_exn x) []))
   \<and> create_folder example_root ''/srv'' 9 [''id'' \<mapsto> JStr ''u1''] ''Docs'' []
       = (Inl (http_400 ''Folder already exists''), example_root)
   \<and> (http_400 ''Folder already exists'' \<in> {http_400 ''Folder already exists'', access_denied}
        \<or> (\<exists>x. fst (create_folder_try example_root ''/srv'' 9 [''id'' \<mapsto> JStr ''u1''] ''Docs''
                        []) = Inl x
                 \<and> http_400 ''Folder already exists''
                     = HTTPException 500 (''Failed to create folder: '' @ str_exn x) []))"
proof -
  have g: "get_file_tree example_root ''/srv'' 9 [''id'' \<mapsto> JStr ''u1''] ''B.txt''
     = (Inl (HTTPException 500
              (''Failed to read directory: ''
               @ str_exn (FileExistsError ''/srv/uploads/u1/B.txt'')) []), example_root)"
    by code_simp
  have u: "upload_file example_root ''/srv'' 9 [''id'' \<mapsto> JStr ''u1''] None ''abc'' []
       = (Inl (http_400 ''No file selected''), example_root)"
    by code_simp
  have c: "create_folder example_root ''/srv'' 9 [''id'' \<mapsto> JStr ''u1''] ''Docs'' []
       = (Inl (http_400 ''Folder already exists''), example_root)"
    by code_simp
  have t: "fst (get_file_tree_try example_root ''/srv'' 9 [''id'' \<mapsto> JStr ''u1''] ''B.txt'')
       = Inl (FileExistsError ''/srv/uploads/u1/B.txt'')"
    by code_simp
  have 1: "\<exists>x. fst (get_file_tree_try example_root ''/srv'' 9 [''id'' \<mapsto> JStr ''u1''] ''B.txt'')
              = Inl x
            \<and> HTTPException 500
                 (''Failed to read directory: ''
                  @ str_exn (FileExistsError ''/srv/uploads/u1/B.txt'')) []
                = HTTPException 500 (''Failed to read directory: '' @ str_exn x) []"
    using g error_details [of example_root "''/srv''" 9 "[''id'' \<mapsto> JStr ''u1'']" "''B.txt''"
            "HTTPException 500 (''Failed to read directory: ''
               @ str_exn (FileExistsError ''/srv/uploads/u1/B.txt'')) []" example_root]
    by blast
  have 2: "http_400 ''No file selected''
        \<in> {http_400 ''No file selected'', http_400 ''File type not allowed'',
            http_400 ''File size exceeds maximum limit (10MB)'', access_denied}
        \<or> (\<exists>x. fst (upload_file_try example_root ''/srv'' 9 [''id'' \<mapsto> JStr ''u1''] None
                        ''abc'' []) = Inl x
                 \<and> http_400 ''No file selected''
                     = HTTPException 500 (''Upload failed: '' @ str_exn x) [])"
    using u error_details [of example_root "''/srv''" 9 "[''id'' \<mapsto> JStr ''u1'']" _
            "http_400 ''No file selected''" example_root None "''abc''"]
    by blast
  have 3: "http_400 ''Folder already exists'' \<in> {http_400 ''Folder already exists'', access_denied}
        \<or> (\<exists>x. fst (create_folder_try example_root ''/srv'' 9 [''id'' \<mapsto> JStr ''u1''] ''Docs''
                        []) = Inl x
                 \<and> http_400 ''Folder already exists''
                     = HTTPException 500 (''Failed to create folder: '' @ str_exn x) [])"
    using c error_details [of example_root "''/srv''" 9 "[''id'' \<mapsto> JStr ''u1'']" "[]"
            "http_400 ''Folder already exists''" example_root _ _ "''Docs''"]
    by blast
  show ?thesis using g u c t 1 2 3 by blast
qed

section \<open>Listing a directory that does not exist\<close>







































end
